theory Spec2Isabelle
  imports Complex_Main
begin

section \<open>Tables\<close>

text \<open>
  The pipeline threads one pandas DataFrame from step to step. A frame is modelled by its
  column names and its rows in order; a row carries its index label and one cell per column
  name. A cell is a number, the missing marker NaN, or non-numeric content (an object
  column read from CSV). Floating-point numbers are idealised as reals; only comparisons
  are made on them in the steps modelled here.
\<close>

datatype py_error = KeyError string | IndexError | ValueError | TypeError

datatype cell = Num real | NaN | Str string

type_synonym row = "string \<Rightarrow> cell"

record 'i frame =
  columns :: "string list"
  body :: "('i \<times> row) list"

section \<open>Range validation: \<open>preprocess_remove_sensor_errors\<close>\<close>

text \<open>
  \<open>pd.to_numeric(..., errors='coerce')\<close>: numbers stay, text that parses becomes its number,
  everything else becomes NaN. The parser of numeric text is the library's and is a parameter.
\<close>

fun to_numeric :: "(string \<Rightarrow> real option) \<Rightarrow> cell \<Rightarrow> cell" where
  "to_numeric parse (Num x) = Num x"
| "to_numeric parse NaN = NaN"
| "to_numeric parse (Str s) = (case parse s of Some x \<Rightarrow> Num x | None \<Rightarrow> NaN)"

definition range_dict :: "(string \<times> real \<times> real) list" where
  "range_dict =
   [(''ME COPT COND CSW IN TEMP'', 0, 70),
    (''ME CYL. L.O IN TEMP.'', 0, 90),
    (''ME EXH. GAS OUT TEMP.CYL. NO.1'', 0.1, 600),
    (''ME EXH. GAS OUT TEMP.CYL. NO.2'', 0.1, 600),
    (''ME EXH. GAS OUT TEMP.CYL. NO.3'', 0.1, 600),
    (''ME EXH. GAS OUT TEMP.CYL. NO.4'', 0.1, 600),
    (''ME EXH. GAS OUT TEMP.CYL. NO.5'', 0.1, 600),
    (''ME EXH. GAS OUT TEMP.CYL. NO.6'', 0.1, 600),
    (''ME T/C 1 EXH. GAS IN TEMP.'', 0, 600),
    (''ME T/C 1  EXH. GAS OUT TEMP.'', 0, 500),
    (''ME F.O IN PRESS'', 0, 10),
    (''ME F.O. IN TEMP.'', 0, 150),
    (''ME J.C.W OUT HIGH TEMP SLD.CYL.1'', 0, 90),
    (''ME J.C.W OUT HIGH TEMP SLD.CYL.2'', 0, 90),
    (''ME J.C.W OUT HIGH TEMP SLD.CYL.3'', 0, 90),
    (''ME J.C.W OUT HIGH TEMP SLD.CYL.4'', 0, 90),
    (''ME J.C.W OUT HIGH TEMP SLD.CYL.5'', 0, 90),
    (''ME J.C.W OUT HIGH TEMP SLD.CYL.6'', 0, 90),
    (''ME J.C.W IN PRESS'', 0, 0.7),
    (''ME L.O IN PRESS'', 0, 0.6),
    (''ME L.O IN TEMP.'', 0, 80),
    (''SCAV. AIR PRESS IN AIR RECEIVER'', -1, 3.5),
    (''ME SCAV. AIR TEMP.  IN SCAV.'', 0, 60),
    (''ME SCAV. AIR FIRE DET. TEMP. HIGH PISTON CYL. NO.1 SLD'', 15, 130),
    (''ME SCAV. AIR FIRE DET. TEMP. HIGH PISTON CYL. NO.2 SLD'', 15, 130),
    (''ME SCAV. AIR FIRE DET. TEMP. HIGH PISTON CYL. NO.3 SLD'', 15, 130),
    (''ME SCAV. AIR FIRE DET. TEMP. HIGH PISTON CYL. NO.4 SLD'', 15, 130),
    (''ME SCAV. AIR FIRE DET. TEMP. HIGH PISTON CYL. NO.5 SLD'', 15, 130),
    (''ME SCAV. AIR FIRE DET. TEMP. HIGH PISTON CYL. NO.6 SLD'', 15, 130),
    (''ME SHAFT POWER'', 0, 9000),
    (''ME RPM'', -100, 99)]"

text \<open>
  One entry of \<open>out_of_range_mask\<close>: \<open>(v < min_val) | (v > max_val)\<close>. Both comparisons are
  False on NaN. The mask is only taken after the numeric coercion, where no text is left.
\<close>

fun out_of_range :: "real \<Rightarrow> real \<Rightarrow> cell \<Rightarrow> bool" where
  "out_of_range min_val max_val (Num x) = (x < min_val \<or> x > max_val)"
| "out_of_range min_val max_val NaN = False"
| "out_of_range min_val max_val (Str s) = False"

text \<open>
  The metrics the step logs: one \<open>oor_count__<col>\<close> per channel, in the order of the
  dictionary, and \<open>total_values_replaced\<close>.
\<close>

record sensor_log =
  oor_counts :: "(string \<times> nat) list"
  total_values_replaced :: nat

text \<open>
  The loop over \<open>range_dict.items()\<close>. \<open>updated_df[col]\<close> raises KeyError when the table has
  no such column; otherwise the masked cells of that column are overwritten with NaN.
\<close>

fun validate_loop ::
  "(string \<times> real \<times> real) list \<Rightarrow> 'i frame \<Rightarrow> sensor_log \<Rightarrow> py_error + ('i frame \<times> sensor_log)" where
  "validate_loop [] updated_df lg = Inr (updated_df, lg)"
| "validate_loop ((col, min_val, max_val) # rest) updated_df lg =
     (if col \<notin> set (columns updated_df) then Inl (KeyError col)
      else
        let out_of_range_mask = map (\<lambda>(i, r). out_of_range min_val max_val (r col)) (body updated_df);
            count = length (filter (\<lambda>b. b) out_of_range_mask);
            replaced = map (\<lambda>(i, r). (i, if out_of_range min_val max_val (r col) then r(col := NaN) else r))
                         (body updated_df)
        in validate_loop rest (updated_df\<lparr>body := replaced\<rparr>)
             \<lparr>oor_counts = oor_counts lg @ [(col, count)],
              total_values_replaced = total_values_replaced lg + count\<rparr>)"

definition preprocess_remove_sensor_errors ::
  "(string \<Rightarrow> real option) \<Rightarrow> 'i frame \<Rightarrow> py_error + ('i frame \<times> sensor_log)" where
  "preprocess_remove_sensor_errors parse updated_df =
     validate_loop range_dict
       (updated_df\<lparr>body := map (\<lambda>(i, r). (i, \<lambda>c. to_numeric parse (r c))) (body updated_df)\<rparr>)
       \<lparr>oor_counts = [], total_values_replaced = 0\<rparr>"

text \<open>
  Specification side of the loop, used to state what it computes: each channel of the
  mapping is clipped on its own, every other cell is left alone; and the number of cells a
  channel loses.
\<close>

definition clip_row :: "(string \<times> real \<times> real) list \<Rightarrow> row \<Rightarrow> row" where
  "clip_row rd r = (\<lambda>c. case map_of rd c of
       Some (lo, hi) \<Rightarrow> if out_of_range lo hi (r c) then NaN else r c
     | None \<Rightarrow> r c)"

definition count_col :: "('i \<times> row) list \<Rightarrow> string \<times> real \<times> real \<Rightarrow> string \<times> nat" where
  "count_col rows e = (case e of (col, lo, hi) \<Rightarrow>
      (col, length (filter (\<lambda>(i, r). out_of_range lo hi (r col)) rows)))"

text \<open>An example table: one row, every channel of the mapping present.\<close>

definition example_readings :: "nat frame" where
  "example_readings =
     \<lparr>columns = map fst range_dict,
      body = [(0, \<lambda>c. if c = ''ME RPM'' then Num 150 else if c = ''ME L.O IN TEMP.'' then Str ''n/a'' else Num 50)]\<rparr>"

section \<open>Resampling and alignment: \<open>data_preprocessor\<close>\<close>

text \<open>
  The module-level dictionary \<open>variables_used\<close>, in insertion order: source tag, channel
  name.
\<close>

definition variables_used :: "(string \<times> string) list" where
  "variables_used =
   [(''ME_CSW_IN_T'', ''ME COPT COND CSW IN TEMP''),
    (''ME_CYL_OIL_IN_T'', ''ME CYL. L.O IN TEMP.''),
    (''ME_EXH_GAS_1_OUT_T'', ''ME EXH. GAS OUT TEMP.CYL. NO.1''),
    (''ME_EXH_GAS_2_OUT_T'', ''ME EXH. GAS OUT TEMP.CYL. NO.2''),
    (''ME_EXH_GAS_3_OUT_T'', ''ME EXH. GAS OUT TEMP.CYL. NO.3''),
    (''ME_EXH_GAS_4_OUT_T'', ''ME EXH. GAS OUT TEMP.CYL. NO.4''),
    (''ME_EXH_GAS_5_OUT_T'', ''ME EXH. GAS OUT TEMP.CYL. NO.5''),
    (''ME_EXH_GAS_6_OUT_T'', ''ME EXH. GAS OUT TEMP.CYL. NO.6''),
    (''ME_EXH_GAS_TC_IN_T'', ''ME T/C 1 EXH. GAS IN TEMP.''),
    (''ME_EXH_GAS_TC_OUT_T'', ''ME T/C 1  EXH. GAS OUT TEMP.''),
    (''ME_FO_IN_P'', ''ME F.O IN PRESS''),
    (''ME_FO_IN_T'', ''ME F.O. IN TEMP.''),
    (''ME_JACKET_CFW_1_OUT_T'', ''ME J.C.W OUT HIGH TEMP SLD.CYL.1''),
    (''ME_JACKET_CFW_2_OUT_T'', ''ME J.C.W OUT HIGH TEMP SLD.CYL.2''),
    (''ME_JACKET_CFW_3_OUT_T'', ''ME J.C.W OUT HIGH TEMP SLD.CYL.3''),
    (''ME_JACKET_CFW_4_OUT_T'', ''ME J.C.W OUT HIGH TEMP SLD.CYL.4''),
    (''ME_JACKET_CFW_5_OUT_T'', ''ME J.C.W OUT HIGH TEMP SLD.CYL.5''),
    (''ME_JACKET_CFW_6_OUT_T'', ''ME J.C.W OUT HIGH TEMP SLD.CYL.6''),
    (''ME_JACKET_CFW_IN_P'', ''ME J.C.W IN PRESS''),
    (''ME_MAIN_LO_IN_P'', ''ME L.O IN PRESS''),
    (''ME_MAIN_LO_IN_T'', ''ME L.O IN TEMP.''),
    (''ME_SCAV_AIR_RECEIV_P'', ''SCAV. AIR PRESS IN AIR RECEIVER''),
    (''ME_SCAV_AIR_RECEIV_T'', ''ME SCAV. AIR TEMP.  IN SCAV.''),
    (''ME_SCAV_AIR_1_BOX_T_SD'', ''ME SCAV. AIR FIRE DET. TEMP. HIGH PISTON CYL. NO.1 SLD''),
    (''ME_SCAV_AIR_2_BOX_T_SD'', ''ME SCAV. AIR FIRE DET. TEMP. HIGH PISTON CYL. NO.2 SLD''),
    (''ME_SCAV_AIR_3_BOX_T_SD'', ''ME SCAV. AIR FIRE DET. TEMP. HIGH PISTON CYL. NO.3 SLD''),
    (''ME_SCAV_AIR_4_BOX_T_SD'', ''ME SCAV. AIR FIRE DET. TEMP. HIGH PISTON CYL. NO.4 SLD''),
    (''ME_SCAV_AIR_5_BOX_T_SD'', ''ME SCAV. AIR FIRE DET. TEMP. HIGH PISTON CYL. NO.5 SLD''),
    (''ME_SCAV_AIR_6_BOX_T_SD'', ''ME SCAV. AIR FIRE DET. TEMP. HIGH PISTON CYL. NO.6 SLD''),
    (''Shaft_Power'', ''ME SHAFT POWER''),
    (''Shaft_RPM'', ''ME RPM''),
    (''dataTime'', ''dataTime'')]"

text \<open>
  The table that enters the step carries its \<open>dataTime\<close> as the row label: the value of
  \<open>pd.to_datetime\<close>, in nanoseconds since the epoch, \<open>None\<close> for NaT. The other selected
  columns are \<open>input_df.columns.drop('dataTime')\<close>.
\<close>

definition channel_columns :: "string list" where
  "channel_columns = filter (\<lambda>c. c \<noteq> ''dataTime'') (map snd variables_used)"

definition isna :: "cell \<Rightarrow> bool" where
  "isna c = (c = NaN)"

text \<open>\<open>dropna(how='all', subset=...)\<close> and \<open>dropna(subset=...)\<close>, whose default is \<open>how='any'\<close>.\<close>

definition dropna_all :: "string list \<Rightarrow> ('i \<times> row) list \<Rightarrow> ('i \<times> row) list" where
  "dropna_all cols rows = filter (\<lambda>(i, r). \<not> list_all (\<lambda>c. isna (r c)) cols) rows"

definition dropna_any :: "string list \<Rightarrow> ('i \<times> row) list \<Rightarrow> ('i \<times> row) list" where
  "dropna_any cols rows = filter (\<lambda>(i, r). \<not> list_ex (\<lambda>c. isna (r c)) cols) rows"

text \<open>\<open>drop_duplicates\<close>: the first of several equal rows (time and every column) stays.\<close>

definition same_row :: "string list \<Rightarrow> ('i \<times> row) \<Rightarrow> ('i \<times> row) \<Rightarrow> bool" where
  "same_row cols x y = (fst x = fst y \<and> list_all (\<lambda>c. snd x c = snd y c) cols)"

fun drop_duplicates :: "string list \<Rightarrow> ('i \<times> row) list \<Rightarrow> ('i \<times> row) list \<Rightarrow> ('i \<times> row) list" where
  "drop_duplicates cols seen [] = []"
| "drop_duplicates cols seen (x # xs) =
     (if list_ex (same_row cols x) seen then drop_duplicates cols seen xs
      else x # drop_duplicates cols (x # seen) xs)"

definition input_df :: "int option frame \<Rightarrow> (int option \<times> row) list" where
  "input_df df = drop_duplicates channel_columns [] (dropna_all channel_columns (body df))"

text \<open>
  \<open>.dt.seconds\<close> of a time difference: the seconds field of its (days, seconds,
  microseconds, nanoseconds) form, between 0 and 86399; the days are not part of it.
\<close>

definition dt_seconds :: "int \<Rightarrow> int" where
  "dt_seconds d = (d mod 86400000000000) div 1000000000"

text \<open>\<open>input_df['dataTime'].diff().dt.seconds\<close>: undefined on the first row and next to NaT.\<close>

fun diff_seconds :: "int option \<Rightarrow> int option \<Rightarrow> int option" where
  "diff_seconds (Some prev) (Some cur) = Some (dt_seconds (cur - prev))"
| "diff_seconds prev cur = None"

fun diffs_from :: "int option \<Rightarrow> int option list \<Rightarrow> int option list" where
  "diffs_from prev [] = []"
| "diffs_from prev (t # ts) = diff_seconds prev t # diffs_from t ts"

definition diffs :: "int option frame \<Rightarrow> int option list" where
  "diffs df = diffs_from None (map fst (input_df df))"

text \<open>The two masks \<open>diffs < 250\<close> and \<open>diffs > 250\<close>; a comparison with NaN is False.\<close>

fun lt_250 :: "int option \<Rightarrow> bool" where
  "lt_250 (Some s) = (s < 250)"
| "lt_250 None = False"

fun gt_250 :: "int option \<Rightarrow> bool" where
  "gt_250 (Some s) = (s > 250)"
| "gt_250 None = False"

definition boolean_index :: "bool list \<Rightarrow> 'a list \<Rightarrow> 'a list" where
  "boolean_index msk rows = map snd (filter fst (zip msk rows))"

definition high_freq_mask :: "int option frame \<Rightarrow> bool list" where
  "high_freq_mask df = map lt_250 (diffs df)"

definition low_freq_mask :: "int option frame \<Rightarrow> bool list" where
  "low_freq_mask df = map gt_250 (diffs df)"

text \<open>\<open>set_index('dataTime')\<close> on a partition; its rows all have a defined time.\<close>

fun set_index :: "(int option \<times> row) list \<Rightarrow> (int \<times> row) list" where
  "set_index [] = []"
| "set_index ((Some t, r) # rows) = (t, r) # set_index rows"
| "set_index ((None, r) # rows) = set_index rows"

definition input_df_1min :: "int option frame \<Rightarrow> (int \<times> row) list" where
  "input_df_1min df = set_index (boolean_index (high_freq_mask df) (input_df df))"

definition input_df_15min :: "int option frame \<Rightarrow> (int \<times> row) list" where
  "input_df_15min df = set_index (boolean_index (low_freq_mask df) (input_df df))"

text \<open>
  \<open>resample('5T').apply(lambda x: x.sample(1, random_state=42) if len(x) > 0 else None)\<close>:
  the rows fall into 5-minute buckets labelled by their left edge, in ascending order;
  from each non-empty bucket one row is drawn. The draw is the library's: \<open>pick n\<close> is the
  position drawn among \<open>n\<close> rows with the fixed seed (below \<open>n\<close>; the remainder keeps the
  model total for any parameter). Empty buckets give all-NaN rows that
  \<open>dropna(how='all')\<close> removes.
\<close>

definition bucket_of :: "int \<Rightarrow> int" where
  "bucket_of t = (t div 300000000000) * 300000000000"

definition min1_resampled :: "(nat \<Rightarrow> nat) \<Rightarrow> int option frame \<Rightarrow> (int \<times> row) list" where
  "min1_resampled pick df =
     (let rows = input_df_1min df;
          labels = sort (remdups (map (\<lambda>(t, r). bucket_of t) rows));
          sampled = map (\<lambda>b. let x = filter (\<lambda>(t, r). bucket_of t = b) rows
                              in (b, snd (x ! (pick (length x) mod length x)))) labels
      in dropna_all channel_columns sampled)"

definition concatenated :: "(nat \<Rightarrow> nat) \<Rightarrow> int option frame \<Rightarrow> (int \<times> row) list" where
  "concatenated pick df = input_df_15min df @ min1_resampled pick df"

text \<open>
  The step. Selecting \<open>list(variables_used.values())\<close> raises KeyError when a channel is
  missing from the table. \<open>sort_index\<close> is modelled by a stable sort on the time.
\<close>

definition data_preprocessor :: "(nat \<Rightarrow> nat) \<Rightarrow> int option frame \<Rightarrow> py_error + int frame" where
  "data_preprocessor pick df =
     (case filter (\<lambda>c. c \<notin> set (columns df)) channel_columns of
        c # cs \<Rightarrow> Inl (KeyError c)
      | [] \<Rightarrow>
          let updated_df = concatenated pick df;
              updated_df = dropna_any [''ME F.O. IN TEMP.'', ''ME RPM''] updated_df
          in Inr \<lparr>columns = channel_columns, body = sort_key fst updated_df\<rparr>)"

text \<open>
  An example recording, all channels present. Row 0 opens the table; row 1 follows after
  900 s and has no RPM reading; row 2 follows after 60 s; row 3 follows after one day and
  60 s; row 4 follows after exactly 250 s.
\<close>

definition example_recording :: "int option frame" where
  "example_recording =
     \<lparr>columns = channel_columns,
      body = [(Some 0, \<lambda>c. Num 1),
              (Some 900000000000, \<lambda>c. if c = ''ME RPM'' then NaN else Num 2),
              (Some 960000000000, \<lambda>c. Num 3),
              (Some 87420000000000, \<lambda>c. Num 4),
              (Some 87670000000000, \<lambda>c. Num 5)]\<rparr>"

section \<open>Steady-state segmentation: \<open>steady_state_extraction_core\<close>\<close>

text \<open>\<open>np.argmax\<close>: the position of the first greatest element.\<close>

fun argmax_from :: "'a::linorder \<Rightarrow> nat \<Rightarrow> nat \<Rightarrow> 'a list \<Rightarrow> nat" where
  "argmax_from best best_idx i [] = best_idx"
| "argmax_from best best_idx i (x # xs) =
     (if best < x then argmax_from x i (Suc i) xs else argmax_from best best_idx (Suc i) xs)"

fun argmax :: "'a::linorder list \<Rightarrow> nat" where
  "argmax [] = 0"
| "argmax (x # xs) = argmax_from x 0 1 xs"

text \<open>
  The transition counts: \<open>for t in range(len(states)-1): C[states[t], states[t+1]] += 1\<close>.
  An id outside the \<open>r\<close> by \<open>r\<close> matrix raises IndexError.
\<close>

fun count_transitions :: "nat \<Rightarrow> nat list \<Rightarrow> nat list list \<Rightarrow> py_error + nat list list" where
  "count_transitions r (i # j # rest) C =
     (if i < r \<and> j < r
      then count_transitions r (j # rest) (C[i := (C ! i)[j := C ! i ! j + 1]])
      else Inl IndexError)"
| "count_transitions r states C = Inr C"

text \<open>Row normalisation: a row with a positive sum is divided by it, another row stays zero.\<close>

definition row_normalize :: "nat list list \<Rightarrow> real list list" where
  "row_normalize C =
     map (\<lambda>row. let row_sum = sum_list row
                in if row_sum > 0 then map (\<lambda>c. real c / real row_sum) row
                   else map (\<lambda>c. 0) row) C"

definition binarize :: "real list list \<Rightarrow> nat list list" where
  "binarize P = map (map (\<lambda>p. if p > 0 then 1 else 0)) P"

text \<open>
  \<open>cv2.connectedComponents(B, connectivity)\<close> is OpenCV's: the non-zero pixels of the image
  are grouped into components of pixels joined by steps to a neighbour (the 4 edge
  neighbours, or with connectivity 8 also the 4 diagonal ones); the components are numbered
  from 1 in raster order of their first pixel, 0 is the background; the result is the
  number of labels, background included, and the image of labels. \<open>grow\<close> closes a
  component under neighbourhood; as many rounds as there are pixels suffice.
\<close>

definition fg_pixels :: "nat list list \<Rightarrow> (nat \<times> nat) list" where
  "fg_pixels img =
     concat (map (\<lambda>i. map (\<lambda>j. (i, j)) (filter (\<lambda>j. img ! i ! j \<noteq> 0) [0..<length (img ! i)]))
               [0..<length img])"

fun adjacent :: "nat \<Rightarrow> nat \<times> nat \<Rightarrow> nat \<times> nat \<Rightarrow> bool" where
  "adjacent connectivity (i, j) (k, l) =
     (let di = (if i < k then k - i else i - k); dj = (if j < l then l - j else j - l)
      in if connectivity = 8 then di \<le> 1 \<and> dj \<le> 1 \<and> (i, j) \<noteq> (k, l)
         else di + dj = 1)"

fun grow :: "nat \<Rightarrow> nat \<Rightarrow> (nat \<times> nat) list \<Rightarrow> (nat \<times> nat) list \<Rightarrow> (nat \<times> nat) list" where
  "grow connectivity 0 fg component = component"
| "grow connectivity (Suc n) fg component =
     grow connectivity n fg
       (component @ filter (\<lambda>p. p \<notin> set component \<and> list_ex (adjacent connectivity p) component) fg)"

fun label_components ::
  "nat \<Rightarrow> (nat \<times> nat) list \<Rightarrow> (nat \<times> nat) list \<Rightarrow> (nat \<times> nat) list list \<Rightarrow> (nat \<times> nat) list list" where
  "label_components connectivity fg [] comps = comps"
| "label_components connectivity fg (p # ps) comps =
     (if list_ex (\<lambda>c. p \<in> set c) comps then label_components connectivity fg ps comps
      else label_components connectivity fg ps (comps @ [grow connectivity (length fg) fg [p]]))"

fun label_of :: "nat \<Rightarrow> (nat \<times> nat) list list \<Rightarrow> nat \<times> nat \<Rightarrow> nat" where
  "label_of n [] p = 0"
| "label_of n (c # cs) p = (if p \<in> set c then n else label_of (Suc n) cs p)"

definition connectedComponents :: "nat list list \<Rightarrow> nat \<Rightarrow> nat \<times> nat list list" where
  "connectedComponents img connectivity =
     (let fg = fg_pixels img;
          comps = label_components connectivity fg fg []
      in (Suc (length comps),
          map (\<lambda>i. map (\<lambda>j. label_of 1 comps (i, j)) [0..<length (img ! i)]) [0..<length img]))"

text \<open>\<open>np.bincount(labels_img.flatten())[1:]\<close>: how many pixels carry each label from 1 on.\<close>

definition bincount_tail :: "nat list \<Rightarrow> nat list" where
  "bincount_tail flat = map (\<lambda>l. length (filter (\<lambda>x. x = l) flat)) [1..<Suc (foldr max flat 0)]"

text \<open>
  What the \<open>else\<close> branch of the loop over the windows computes for one window, every
  intermediate value kept.
\<close>

record window_analysis =
  wa_C :: "nat list list"
  wa_P :: "real list list"
  wa_B :: "nat list list"
  wa_num_labels :: nat
  wa_labels_img :: "nat list list"
  wa_counts :: "nat list"
  wa_main_label :: nat

definition analyse_window :: "nat list \<Rightarrow> py_error + window_analysis" where
  "analyse_window states =
     (let r = length (remdups states)
      in case count_transitions r states (replicate r (replicate r 0)) of
           Inl e \<Rightarrow> Inl e
         | Inr C \<Rightarrow>
             let P = row_normalize C;
                 B = binarize P;
                 (num_labels, labels_img) = connectedComponents B 4;
                 counts = bincount_tail (concat labels_img);
                 main_label = (if counts \<noteq> [] then argmax counts + 1 else 0)
             in Inr \<lparr>wa_C = C, wa_P = P, wa_B = B, wa_num_labels = num_labels,
                     wa_labels_img = labels_img, wa_counts = counts, wa_main_label = main_label\<rparr>)"

text \<open>The label of one window from its cluster ids.\<close>

definition window_label :: "nat list \<Rightarrow> py_error + nat" where
  "window_label states =
     (if length (remdups states) = 1 then Inr 1
      else case analyse_window states of Inl e \<Rightarrow> Inl e | Inr a \<Rightarrow> Inr (wa_main_label a))"

text \<open>
  The windows: \<open>for start in range(0, len(series_smoothed) - L + 1, step)\<close>; a step of 0 makes
  \<open>range\<close> raise ValueError.
\<close>

definition windows_of :: "'a list \<Rightarrow> nat \<Rightarrow> nat \<Rightarrow> py_error + 'a list list" where
  "windows_of series_smoothed L step =
     (if step = 0 then Inl ValueError
      else Inr (map (\<lambda>start. take L (drop start series_smoothed))
                 (filter (\<lambda>start. start mod step = 0) [0..<length series_smoothed + 1 - L])))"

text \<open>
  The loop over the windows. The clustering
  \<open>AgglomerativeClustering(n_clusters=None, distance_threshold=...).fit_predict\<close> is
  scikit-learn's and is a parameter: it gives the cluster id of every sample or raises.
\<close>

fun label_windows ::
  "(real \<Rightarrow> cell list \<Rightarrow> py_error + nat list) \<Rightarrow> real \<Rightarrow> cell list list \<Rightarrow> py_error + nat list" where
  "label_windows fit_predict distance_threshold [] = Inr []"
| "label_windows fit_predict distance_threshold (window # windows) =
     (case fit_predict distance_threshold window of
        Inl e \<Rightarrow> Inl e
      | Inr states \<Rightarrow>
          (case window_label states of
             Inl e \<Rightarrow> Inl e
           | Inr l \<Rightarrow>
               (case label_windows fit_predict distance_threshold windows of
                  Inl e \<Rightarrow> Inl e
                | Inr ls \<Rightarrow> Inr (l # ls))))"

text \<open>The label of sample \<open>t\<close>: that of the windows \<open>i_min .. i_max\<close> when they all agree, else 0.\<close>

definition final_label :: "nat list \<Rightarrow> nat \<Rightarrow> nat \<Rightarrow> nat \<Rightarrow> nat" where
  "final_label seq_labels n_windows L t =
     (let i_min = max 0 (int t - int L + 1);
          i_max = min (int t) (int n_windows - 1);
          labels_here = map (\<lambda>i. seq_labels ! nat i) [i_min..i_max]
      in if labels_here \<noteq> [] \<and> list_all (\<lambda>l. l = hd labels_here) labels_here
         then hd labels_here else 0)"

text \<open>
  The core. The smoothing \<open>series.ewm(alpha=alpha).mean()\<close> is pandas' and is a parameter.
\<close>

definition steady_state_extraction_core ::
  "(real \<Rightarrow> cell list \<Rightarrow> cell list) \<Rightarrow> (real \<Rightarrow> cell list \<Rightarrow> py_error + nat list) \<Rightarrow>
   cell list \<Rightarrow> real \<Rightarrow> real \<Rightarrow> nat \<Rightarrow> nat \<Rightarrow> py_error + nat list" where
  "steady_state_extraction_core ewm_mean fit_predict series distance_threshold alpha L step =
     (let series_smoothed = ewm_mean alpha series
      in case windows_of series_smoothed L step of
           Inl e \<Rightarrow> Inl e
         | Inr windows \<Rightarrow>
             (case label_windows fit_predict distance_threshold windows of
                Inl e \<Rightarrow> Inl e
              | Inr seq_labels \<Rightarrow>
                  Inr (map (final_label seq_labels (length windows) L)
                        [0..<length series_smoothed])))"

text \<open>
  The step: the rows in time order, the core on the shaft power with the step's constants,
  and the rows whose label is not 0.
\<close>

definition steady_state_extraction ::
  "(real \<Rightarrow> cell list \<Rightarrow> cell list) \<Rightarrow> (real \<Rightarrow> cell list \<Rightarrow> py_error + nat list) \<Rightarrow>
   int frame \<Rightarrow> py_error + int frame" where
  "steady_state_extraction ewm_mean fit_predict updated_df =
     (let updated_df = updated_df\<lparr>body := sort_key fst (body updated_df)\<rparr>
      in if ''ME SHAFT POWER'' \<notin> set (columns updated_df) then Inl (KeyError ''ME SHAFT POWER'')
         else case steady_state_extraction_core ewm_mean fit_predict
                     (map (\<lambda>(t, r). r ''ME SHAFT POWER'') (body updated_df)) 700 0.2 20 1 of
                Inl e \<Rightarrow> Inl e
              | Inr labels_me_load \<Rightarrow>
                  Inr (updated_df\<lparr>body := boolean_index (map (\<lambda>l. l \<noteq> 0) labels_me_load)
                                              (body updated_df)\<rparr>))"

text \<open>A window that alternates between two cluster ids, \<open>a, b, a, b, ...\<close>, \<open>n\<close> samples long.\<close>

fun alternating :: "nat \<Rightarrow> nat \<Rightarrow> nat \<Rightarrow> nat list" where
  "alternating a b 0 = []"
| "alternating a b (Suc n) = a # alternating b a n"

section \<open>Outlier filtering: \<open>further_filtering\<close>\<close>



















section \<open>Evaluation: \<open>evaluate_autoencoder_step\<close>\<close>

text \<open>
  The columns. \<open>test[anomaly_col]\<close> raises KeyError without the annotation column; the
  anomaly rows are renamed by the dictionary when it is not empty; \<open>common_cols\<close> is the
  intersection of the two column sets (a set, listed here in the order of the anomaly rows;
  the order never reaches the result); the two tables are cut to it and concatenated; the
  columns of \<open>drop_cols\<close> that are present are dropped; and \<open>X[final_df1.columns]\<close> selects
  every column of the training table, raising KeyError for one that is not there.
\<close>

definition rename_columns :: "(string \<times> string) list \<Rightarrow> string list \<Rightarrow> string list" where
  "rename_columns mapping cols =
     (if mapping = [] then cols
      else map (\<lambda>c. case map_of mapping c of Some c' \<Rightarrow> c' | None \<Rightarrow> c) cols)"

definition default_drop_cols :: "string list" where
  "default_drop_cols = [''me_load'', ''ME SCAV AIR BOX TEMP ('' @ [CHR 0xB0] @ ''C)'']"

definition evaluation_columns ::
  "(string \<times> string) list \<Rightarrow> string list \<Rightarrow> string list \<Rightarrow> string list option \<Rightarrow> string \<Rightarrow>
   py_error + string list" where
  "evaluation_columns renaming test_columns final_df1_columns drop_cols anomaly_col =
     (if anomaly_col \<notin> set test_columns then Inl (KeyError anomaly_col)
      else
        let anomalies = rename_columns renaming test_columns;
            normals = final_df1_columns;
            common_cols = filter (\<lambda>c. c \<in> set normals) (remdups anomalies);
            common_cols = (if anomaly_col \<notin> set common_cols \<and> anomaly_col \<in> set anomalies
                           then common_cols @ [anomaly_col] else common_cols);
            anomalies = common_cols;
            normals = filter (\<lambda>c. c \<noteq> anomaly_col) common_cols @ [anomaly_col];
            test_data = anomalies @ filter (\<lambda>c. c \<notin> set anomalies) normals;
            drop_cols = (case drop_cols of None \<Rightarrow> default_drop_cols | Some d \<Rightarrow> d);
            actually_dropped = filter (\<lambda>c. c \<in> set test_data) drop_cols;
            test_data = filter (\<lambda>c. c \<notin> set actually_dropped) test_data
        in if anomaly_col \<notin> set test_data then Inl (KeyError anomaly_col)
           else
             let X = filter (\<lambda>c. c \<noteq> anomaly_col) test_data
             in case filter (\<lambda>c. c \<notin> set X) final_df1_columns of
                  c # cs \<Rightarrow> Inl (KeyError c)
                | [] \<Rightarrow> Inr final_df1_columns)"

text \<open>
  \<open>precision_recall_curve(y_true, reconstruction_error)\<close> is scikit-learn's: the candidate
  thresholds are the distinct scores in increasing order; at a threshold a row is predicted
  anomalous when its score is greater than or equal to it; the precision is the share of
  true anomalies among the predicted ones and the recall the share of predicted ones among
  the true anomalies (1 when there is none); a last precision 1 and recall 0 are appended.
\<close>

definition tps_at :: "nat list \<Rightarrow> real list \<Rightarrow> real \<Rightarrow> nat" where
  "tps_at y_true probas_pred t = length (filter (\<lambda>(y, s). s \<ge> t \<and> y = 1) (zip y_true probas_pred))"

definition fps_at :: "nat list \<Rightarrow> real list \<Rightarrow> real \<Rightarrow> nat" where
  "fps_at y_true probas_pred t = length (filter (\<lambda>(y, s). s \<ge> t \<and> y \<noteq> 1) (zip y_true probas_pred))"

definition precision_recall_curve :: "nat list \<Rightarrow> real list \<Rightarrow> real list \<times> real list \<times> real list" where
  "precision_recall_curve y_true probas_pred =
     (let thresholds = sort (remdups probas_pred);
          n_pos = length (filter (\<lambda>y. y = 1) y_true);
          precision = map (\<lambda>t. real (tps_at y_true probas_pred t)
                                / real (tps_at y_true probas_pred t + fps_at y_true probas_pred t))
                         thresholds;
          recall = map (\<lambda>t. if n_pos = 0 then 1 else real (tps_at y_true probas_pred t) / real n_pos)
                      thresholds
      in (precision @ [1], recall @ [0], thresholds))"

text \<open>
  The threshold sweep of the step: the F1 score of every candidate from the curve, the
  first greatest one, and the predictions at the threshold reported,
  \<open>(reconstruction_error > best_threshold)\<close>. Arrays of different lengths do not combine,
  \<open>np.argmax\<close> of an empty array raises ValueError, and an index outside \<open>thresholds\<close> raises
  IndexError.
\<close>

definition f1_score :: "real \<Rightarrow> real \<Rightarrow> real" where
  "f1_score p r = 2 * (p * r) / (p + r + 1 / 10 ^ 12)"

record best_point =
  best_idx :: nat
  best_threshold :: real
  best_f1 :: real
  best_precision :: real
  best_recall :: real
  y_pred_best :: "nat list"

definition threshold_sweep :: "nat list \<Rightarrow> real list \<Rightarrow> py_error + best_point" where
  "threshold_sweep y_true reconstruction_error =
     (case precision_recall_curve y_true reconstruction_error of
        (precisions, recalls, thresholds) \<Rightarrow>
          if length precisions \<noteq> length recalls then Inl ValueError
          else
            let f1_scores = map (\<lambda>(p, r). f1_score p r) (zip (butlast precisions) (butlast recalls))
            in if f1_scores = [] then Inl ValueError
               else
                 let idx = argmax f1_scores
                 in if length thresholds \<le> idx then Inl IndexError
                    else Inr \<lparr>best_idx = idx,
                              best_threshold = thresholds ! idx,
                              best_f1 = f1_scores ! idx,
                              best_precision = precisions ! idx,
                              best_recall = recalls ! idx,
                              y_pred_best = map (\<lambda>e. if e > thresholds ! idx then 1 else 0)
                                              reconstruction_error\<rparr>)"



section \<open>Range validation: properties\<close>

lemma clip_row_step:
  assumes "col \<notin> fst ` set rest"
  shows "clip_row rest (if out_of_range lo hi (r col) then r(col := NaN) else r)
         = clip_row ((col, lo, hi) # rest) r"
proof
  fix c
  have "map_of rest col = None" using assms by (simp add: map_of_eq_None_iff)
  then show "clip_row rest (if out_of_range lo hi (r col) then r(col := NaN) else r) c
         = clip_row ((col, lo, hi) # rest) r c"
    by (auto simp: clip_row_def split: option.splits)
qed

lemma count_col_step:
  assumes "col \<notin> fst ` set rest"
  shows "map (count_col (map (\<lambda>(i, r). (i, if out_of_range lo hi (r col) then r(col := NaN) else r)) rows)) rest
       = map (count_col rows) rest"
proof -
  have "count_col (map (\<lambda>(i, r). (i, if out_of_range lo hi (r col) then r(col := NaN) else r)) rows) e
      = count_col rows e" if "e \<in> set rest" for e
  proof -
    obtain c l h where e: "e = (c, l, h)" by (cases e) auto
    with that assms have "c \<noteq> col" by force
    then show ?thesis unfolding e count_col_def
      by (induction rows) (auto split: if_splits)
  qed
  then show ?thesis by simp
qed

lemma validate_loop_spec:
  assumes "distinct (map fst rd)" and "fst ` set rd \<subseteq> set (columns df)"
  shows "validate_loop rd df lg =
     Inr (df\<lparr>body := map (\<lambda>(i, r). (i, clip_row rd r)) (body df)\<rparr>,
          \<lparr>oor_counts = oor_counts lg @ map (count_col (body df)) rd,
           total_values_replaced = total_values_replaced lg + sum_list (map snd (map (count_col (body df)) rd))\<rparr>)"
  using assms
proof (induction rd arbitrary: df lg)
  case Nil
  have "clip_row [] = (\<lambda>r. r)" by (auto simp: clip_row_def fun_eq_iff)
  then show ?case by simp
next
  case (Cons e rd)
  obtain col lo hi where e: "e = (col, lo, hi)" by (cases e) auto
  from Cons.prems have notin: "col \<notin> fst ` set rd" and d: "distinct (map fst rd)"
    and colin: "col \<in> set (columns df)" and sub: "fst ` set rd \<subseteq> set (columns df)"
    by (auto simp: e)
  let ?rows = "map (\<lambda>(i, r). (i, if out_of_range lo hi (r col) then r(col := NaN) else r)) (body df)"
  let ?df1 = "df\<lparr>body := ?rows\<rparr>"
  let ?n = "length (filter (\<lambda>(i, r). out_of_range lo hi (r col)) (body df))"
  let ?lg1 = "\<lparr>oor_counts = oor_counts lg @ [(col, ?n)], total_values_replaced = total_values_replaced lg + ?n\<rparr>"
  have step: "validate_loop (e # rd) df lg = validate_loop rd ?df1 ?lg1"
    using colin by (simp add: e Let_def comp_def)
  have sub1: "fst ` set rd \<subseteq> set (columns ?df1)" using sub by simp
  have rows: "map (\<lambda>(i, r). (i, clip_row rd r)) (body ?df1) = map (\<lambda>(i, r). (i, clip_row (e # rd) r)) (body df)"
    using clip_row_step[OF notin] by (simp add: e case_prod_unfold)
  have cnt: "map (count_col (body ?df1)) rd = map (count_col (body df)) rd"
    using count_col_step[OF notin] by simp
  have ce: "count_col (body df) e = (col, ?n)" by (simp add: e count_col_def)
  show ?case
    unfolding step Cons.IH[OF d sub1] rows cnt
    by (simp add: ce)
qed

lemma range_dict_distinct: "distinct (map fst range_dict)"
  by code_simp

lemma validate_loop_columns:
  "validate_loop rd df lg = Inr res \<Longrightarrow> fst ` set rd \<subseteq> set (columns df)"
proof (induction rd arbitrary: df lg)
  case Nil
  then show ?case by simp
next
  case (Cons e rd)
  obtain col lo hi where e: "e = (col, lo, hi)" by (cases e) auto
  from Cons.prems have colin: "col \<in> set (columns df)"
    by (auto simp: e split: if_splits)
  with Cons.prems Cons.IH show ?case
    by (fastforce simp: e Let_def split: if_splits)
qed

lemma preprocess_spec:
  assumes "fst ` set range_dict \<subseteq> set (columns df)"
  shows "preprocess_remove_sensor_errors parse df =
     Inr (df\<lparr>body := map (\<lambda>(i, r). (i, clip_row range_dict (\<lambda>c. to_numeric parse (r c)))) (body df)\<rparr>,
          \<lparr>oor_counts = map (count_col (map (\<lambda>(i, r). (i, \<lambda>c. to_numeric parse (r c))) (body df))) range_dict,
           total_values_replaced =
             sum_list (map snd (map (count_col (map (\<lambda>(i, r). (i, \<lambda>c. to_numeric parse (r c))) (body df))) range_dict))\<rparr>)"
  unfolding preprocess_remove_sensor_errors_def
  using assms by (subst validate_loop_spec[OF range_dict_distinct]) (simp_all add: case_prod_unfold comp_def)

lemma clip_row_cell:
  assumes "(col, lo, hi) \<in> set rd" "distinct (map fst rd)"
  shows "clip_row rd r col = (if out_of_range lo hi (r col) then NaN else r col)"
  using assms by (simp add: clip_row_def)

text \<open>
  C5. When the table has every channel of the range-validation mapping, the step returns
  a table with the same columns and the same rows (same index labels, in the same order),
  and for every row and every channel of the mapping: a value that is kept lies inside
  the channel's inclusive range, a value that was inside the range is unchanged, and a cell
  is either the (numerically coerced) original or the missing marker.
\<close>

theorem range_validation_sound:
  assumes "fst ` set range_dict \<subseteq> set (columns df)"
  shows "\<exists>df' lg. preprocess_remove_sensor_errors parse df = Inr (df', lg)
     \<and> columns df' = columns df
     \<and> map fst (body df') = map fst (body df)
     \<and> (\<forall>k < length (body df). \<forall>(col, lo, hi) \<in> set range_dict.
          (\<forall>x. snd (body df' ! k) col = Num x \<longrightarrow> lo \<le> x \<and> x \<le> hi)
        \<and> (\<forall>x. snd (body df ! k) col = Num x \<and> lo \<le> x \<and> x \<le> hi \<longrightarrow> snd (body df' ! k) col = Num x)
        \<and> (snd (body df' ! k) col = NaN \<or> snd (body df' ! k) col = to_numeric parse (snd (body df ! k) col)))"
proof -
  let ?df' = "df\<lparr>body := map (\<lambda>(i, r). (i, clip_row range_dict (\<lambda>c. to_numeric parse (r c)))) (body df)\<rparr>"
  have cellk: "snd (body ?df' ! k) col =
        (if out_of_range lo hi (to_numeric parse (snd (body df ! k) col)) then NaN
         else to_numeric parse (snd (body df ! k) col))"
    if "k < length (body df)" "(col, lo, hi) \<in> set range_dict" for k col lo hi
    using that clip_row_cell[OF that(2) range_dict_distinct] by (simp add: case_prod_unfold)
  have props: "(\<forall>x. snd (body ?df' ! k) col = Num x \<longrightarrow> lo \<le> x \<and> x \<le> hi)
        \<and> (\<forall>x. snd (body df ! k) col = Num x \<and> lo \<le> x \<and> x \<le> hi \<longrightarrow> snd (body ?df' ! k) col = Num x)
        \<and> (snd (body ?df' ! k) col = NaN \<or> snd (body ?df' ! k) col = to_numeric parse (snd (body df ! k) col))"
    if "k < length (body df)" "(col, lo, hi) \<in> set range_dict" for k col lo hi
    unfolding cellk[OF that]
    by (cases "snd (body df ! k) col") (auto split: option.splits)
  have idx: "map fst (body ?df') = map fst (body df)"
    by (simp add: case_prod_unfold comp_def)
  have all: "\<forall>k < length (body df). \<forall>(col, lo, hi) \<in> set range_dict.
          (\<forall>x. snd (body ?df' ! k) col = Num x \<longrightarrow> lo \<le> x \<and> x \<le> hi)
        \<and> (\<forall>x. snd (body df ! k) col = Num x \<and> lo \<le> x \<and> x \<le> hi \<longrightarrow> snd (body ?df' ! k) col = Num x)
        \<and> (snd (body ?df' ! k) col = NaN \<or> snd (body ?df' ! k) col = to_numeric parse (snd (body df ! k) col))"
    using props by blast
  have cols: "columns ?df' = columns df" by simp
  from preprocess_spec[OF assms, of parse] cols idx all show ?thesis
    by blast
qed

text \<open>
  The example table satisfies the hypothesis: its RPM reading 150 is replaced, its shaft
  power 50 is kept, its non-numeric cell is coerced to the missing marker.
\<close>

theorem range_validation_sound_witness:
  "\<exists>df' lg. preprocess_remove_sensor_errors (\<lambda>s. None) example_readings = Inr (df', lg)
     \<and> columns df' = columns example_readings
     \<and> snd (body df' ! 0) ''ME RPM'' = NaN
     \<and> snd (body df' ! 0) ''ME SHAFT POWER'' = Num 50
     \<and> snd (body df' ! 0) ''ME L.O IN TEMP.'' = NaN"
proof -
  have h: "fst ` set range_dict \<subseteq> set (columns example_readings)"
    by (simp add: example_readings_def)
  from range_validation_sound[OF h, of "\<lambda>s. None"] obtain df' lg where
    run: "preprocess_remove_sensor_errors (\<lambda>s. None) example_readings = Inr (df', lg)"
    and cols: "columns df' = columns example_readings"
    and cells: "\<forall>k < length (body example_readings). \<forall>(col, lo, hi) \<in> set range_dict.
          (\<forall>x. snd (body df' ! k) col = Num x \<longrightarrow> lo \<le> x \<and> x \<le> hi)
        \<and> (\<forall>x. snd (body example_readings ! k) col = Num x \<and> lo \<le> x \<and> x \<le> hi \<longrightarrow> snd (body df' ! k) col = Num x)
        \<and> (snd (body df' ! k) col = NaN \<or> snd (body df' ! k) col = to_numeric (\<lambda>s. None) (snd (body example_readings ! k) col))"
    by blast
  have len: "0 < length (body example_readings)" by (simp add: example_readings_def)
  have m1: "(''ME RPM'', -100, 99) \<in> set range_dict" by (simp add: range_dict_def)
  have m2: "(''ME SHAFT POWER'', 0, 9000) \<in> set range_dict" by (simp add: range_dict_def)
  have m3: "(''ME L.O IN TEMP.'', 0, 80) \<in> set range_dict" by (simp add: range_dict_def)
  have o1: "snd (body example_readings ! 0) ''ME RPM'' = Num 150" by (simp add: example_readings_def)
  have o2: "snd (body example_readings ! 0) ''ME SHAFT POWER'' = Num 50" by (simp add: example_readings_def)
  have o3: "snd (body example_readings ! 0) ''ME L.O IN TEMP.'' = Str ''n/a''" by (simp add: example_readings_def)
  from cells len m1 have c1: "(\<forall>x. snd (body df' ! 0) ''ME RPM'' = Num x \<longrightarrow> -100 \<le> x \<and> x \<le> 99)
      \<and> (snd (body df' ! 0) ''ME RPM'' = NaN \<or> snd (body df' ! 0) ''ME RPM'' = to_numeric (\<lambda>s. None) (snd (body example_readings ! 0) ''ME RPM''))"
    by blast
  from cells len m2 have c2: "(\<forall>x. snd (body example_readings ! 0) ''ME SHAFT POWER'' = Num x \<and> 0 \<le> x \<and> x \<le> 9000
        \<longrightarrow> snd (body df' ! 0) ''ME SHAFT POWER'' = Num x)"
    by blast
  from cells len m3 have c3: "(\<forall>x. snd (body df' ! 0) ''ME L.O IN TEMP.'' = Num x \<longrightarrow> 0 \<le> x \<and> x \<le> 80)
      \<and> (snd (body df' ! 0) ''ME L.O IN TEMP.'' = NaN \<or> snd (body df' ! 0) ''ME L.O IN TEMP.'' = to_numeric (\<lambda>s. None) (snd (body example_readings ! 0) ''ME L.O IN TEMP.''))"
    by blast
  have r1: "snd (body df' ! 0) ''ME RPM'' = NaN" using c1 unfolding o1 by auto
  have r2: "snd (body df' ! 0) ''ME SHAFT POWER'' = Num 50" using c2 unfolding o2 by simp
  have r3: "snd (body df' ! 0) ''ME L.O IN TEMP.'' = NaN" using c3 unfolding o3 by auto
  from run cols r1 r2 r3 show ?thesis by blast
qed

lemma to_numeric_idem: "to_numeric parse (to_numeric parse c) = to_numeric parse c"
  by (cases c) (auto split: option.splits)

lemma clip_row_clean:
  assumes "distinct (map fst rd)"
  shows "out_of_range lo hi (clip_row rd r col) \<Longrightarrow> (col, lo, hi) \<in> set rd \<Longrightarrow> False"
  using clip_row_cell[OF _ assms, of col lo hi r] by (auto split: if_splits)

lemma clip_row_fixed:
  assumes "distinct (map fst rd)"
  shows "clip_row rd (\<lambda>c. to_numeric parse (clip_row rd (\<lambda>c. to_numeric parse (r c)) c))
       = clip_row rd (\<lambda>c. to_numeric parse (r c))"
proof
  fix c
  let ?r1 = "clip_row rd (\<lambda>c. to_numeric parse (r c))"
  have tn: "to_numeric parse (?r1 c) = ?r1 c"
    by (auto simp: clip_row_def to_numeric_idem split: option.splits)
  show "clip_row rd (\<lambda>c. to_numeric parse (?r1 c)) c = ?r1 c"
  proof (cases "map_of rd c")
    case None
    then show ?thesis by (simp add: clip_row_def to_numeric_idem)
  next
    case (Some b)
    obtain lo hi where b: "b = (lo, hi)" by (cases b) auto
    from Some b have mem: "(c, lo, hi) \<in> set rd" by (simp add: map_of_SomeD)
    have "\<not> out_of_range lo hi (?r1 c)" using clip_row_clean[OF assms _ mem] by blast
    then show ?thesis using Some b tn
      by (simp add: clip_row_def)
  qed
qed

lemma count_col_clean:
  assumes "distinct (map fst rd)" "e \<in> set rd"
  shows "count_col (map (\<lambda>(i, r). (i, clip_row rd (f r))) rows) e = (fst e, 0)"
proof -
  obtain col lo hi where e: "e = (col, lo, hi)" by (cases e) auto
  have "\<not> out_of_range lo hi (clip_row rd (f r) col)" for r
    using clip_row_clean[OF assms(1)] assms(2) unfolding e by blast
  then show ?thesis unfolding e count_col_def
    by (auto simp: filter_empty_conv)
qed

lemma to_numeric_clip_row:
  "(\<lambda>c. to_numeric parse (clip_row rd (\<lambda>c. to_numeric parse (r c)) c))
     = clip_row rd (\<lambda>c. to_numeric parse (r c))"
  by (auto simp: clip_row_def to_numeric_idem fun_eq_iff split: option.splits)

text \<open>
  C9. Range validation is idempotent: run again on its own output it returns that output
  unchanged, and every out-of-range count it logs, and their total, is zero.
\<close>

theorem range_validation_idempotent:
  assumes "preprocess_remove_sensor_errors parse df = Inr (df1, lg1)"
  shows "preprocess_remove_sensor_errors parse df1 =
           Inr (df1, \<lparr>oor_counts = map (\<lambda>(col, min_val, max_val). (col, 0)) range_dict,
                     total_values_replaced = 0\<rparr>)"
proof -
  have sub: "fst ` set range_dict \<subseteq> set (columns df)"
    using validate_loop_columns assms unfolding preprocess_remove_sensor_errors_def by fastforce
  let ?f = "\<lambda>r. clip_row range_dict (\<lambda>c. to_numeric parse (r c))"
  from assms preprocess_spec[OF sub, of parse]
  have df1: "df1 = df\<lparr>body := map (\<lambda>(i, r). (i, ?f r)) (body df)\<rparr>" by simp
  then have sub1: "fst ` set range_dict \<subseteq> set (columns df1)" using sub by simp
  have rows: "map (\<lambda>(i, r). (i, ?f r)) (body df1) = body df1"
    unfolding df1 using clip_row_fixed[OF range_dict_distinct, of parse]
    by (simp add: case_prod_unfold comp_def)
  have b1: "map (\<lambda>(i, r). (i, \<lambda>c. to_numeric parse (r c))) (body df1)
          = map (\<lambda>(i, r). (i, clip_row range_dict ((\<lambda>r c. to_numeric parse (r c)) r))) (body df)"
    unfolding df1 by (simp add: case_prod_unfold comp_def to_numeric_clip_row)
  have cnt: "map (count_col (map (\<lambda>(i, r). (i, \<lambda>c. to_numeric parse (r c))) (body df1))) range_dict
      = map (\<lambda>(col, min_val, max_val). (col, 0)) range_dict"
    unfolding b1 using count_col_clean[OF range_dict_distinct]
    by (auto simp: case_prod_unfold)
  have zero: "sum_list (map snd (map (\<lambda>(col, min_val, max_val). (col, 0::nat)) (rd :: (string \<times> real \<times> real) list))) = 0" for rd
    by (induction rd) auto
  show ?thesis
    unfolding preprocess_spec[OF sub1, of parse] rows cnt zero
    by simp
qed

text \<open>
  On the example table the first run replaces five cells; the second run replaces none.
\<close>

theorem range_validation_idempotent_witness:
  "\<exists>df1 lg1. preprocess_remove_sensor_errors (\<lambda>s. None) example_readings = Inr (df1, lg1)
     \<and> total_values_replaced lg1 = 5
     \<and> preprocess_remove_sensor_errors (\<lambda>s. None) df1 =
           Inr (df1, \<lparr>oor_counts = map (\<lambda>(col, min_val, max_val). (col, 0)) range_dict,
                     total_values_replaced = 0\<rparr>)"
proof -
  have h: "fst ` set range_dict \<subseteq> set (columns example_readings)"
    by (simp add: example_readings_def)
  note run = preprocess_spec[OF h, of "\<lambda>s. None"]
  have tot: "sum_list (map snd (map (count_col (map (\<lambda>(i, r). (i, \<lambda>c. to_numeric (\<lambda>s. None) (r c))) (body example_readings))) range_dict)) = 5"
    by (simp add: example_readings_def range_dict_def count_col_def)
  show ?thesis
    using range_validation_idempotent[OF run] run tot by auto
qed

section \<open>Resampling and alignment: properties\<close>

lemma diffs_from_length: "length (diffs_from prev ts) = length ts"
  by (induction ts arbitrary: prev) auto

lemma diffs_from_nth:
  "k < length ts \<Longrightarrow>
     diffs_from prev ts ! k = diff_seconds (if k = 0 then prev else ts ! (k - 1)) (ts ! k)"
proof (induction ts arbitrary: prev k)
  case Nil
  then show ?case by simp
next
  case (Cons t ts)
  show ?case
  proof (cases k)
    case 0
    then show ?thesis by simp
  next
    case (Suc j)
    with Cons.prems have "j < length ts" by simp
    from Cons.IH[OF this, of t] Suc show ?thesis
      by (cases j) auto
  qed
qed

lemma diffs_length: "length (diffs df) = length (input_df df)"
  by (simp add: diffs_def diffs_from_length)

lemma boolean_index_set:
  "x \<in> set (boolean_index msk rows) \<Longrightarrow> \<exists>j. j < length rows \<and> j < length msk \<and> msk ! j \<and> x = rows ! j"
  unfolding boolean_index_def
  by (auto simp: in_set_zip)

lemma set_index_set: "(t, r) \<in> set (set_index rows) \<Longrightarrow> (Some t, r) \<in> set rows"
  by (induction rows rule: set_index.induct) auto

lemma partition_1min_source:
  assumes "(t, r) \<in> set (input_df_1min df)"
  shows "\<exists>j < length (input_df df). high_freq_mask df ! j \<and> r = snd (input_df df ! j)"
proof -
  from assms have "(Some t, r) \<in> set (boolean_index (high_freq_mask df) (input_df df))"
    unfolding input_df_1min_def by (rule set_index_set)
  from boolean_index_set[OF this] show ?thesis by (metis snd_conv)
qed

lemma partition_15min_source:
  assumes "(t, r) \<in> set (input_df_15min df)"
  shows "\<exists>j < length (input_df df). low_freq_mask df ! j \<and> r = snd (input_df df ! j)"
proof -
  from assms have "(Some t, r) \<in> set (boolean_index (low_freq_mask df) (input_df df))"
    unfolding input_df_15min_def by (rule set_index_set)
  from boolean_index_set[OF this] show ?thesis by (metis snd_conv)
qed

lemma resampled_source:
  assumes "(b, r) \<in> set (min1_resampled pick df)"
  shows "\<exists>t. (t, r) \<in> set (input_df_1min df)"
proof -
  let ?rows = "input_df_1min df"
  from assms obtain b' where b': "b' \<in> set (map (\<lambda>(t, r). bucket_of t) ?rows)"
    and r: "r = snd (filter (\<lambda>(t, r). bucket_of t = b') ?rows
                  ! (pick (length (filter (\<lambda>(t, r). bucket_of t = b') ?rows))
                      mod length (filter (\<lambda>(t, r). bucket_of t = b') ?rows)))"
    unfolding min1_resampled_def dropna_all_def by (auto simp: Let_def)
  let ?x = "filter (\<lambda>(t, r). bucket_of t = b') ?rows"
  from b' have "?x \<noteq> []" by (auto simp: filter_empty_conv)
  then have lt: "pick (length ?x) mod length ?x < length ?x" by simp
  have sub: "set ?x \<subseteq> set ?rows" by (rule filter_is_subset)
  from nth_mem[OF lt] sub have "?x ! (pick (length ?x) mod length ?x) \<in> set ?rows" by blast
  then show ?thesis unfolding r by (metis prod.collapse)
qed

lemma output_rows:
  assumes "data_preprocessor pick df = Inr out"
  shows "set (body out) =
     {x \<in> set (concatenated pick df). \<not> isna (snd x ''ME F.O. IN TEMP.'') \<and> \<not> isna (snd x ''ME RPM'')}"
  using assms unfolding data_preprocessor_def dropna_any_def
  by (auto simp: Let_def split: list.splits)

text \<open>The example recording, step by step.\<close>

lemma example_input: "input_df example_recording = body example_recording"
  by (simp add: input_df_def example_recording_def dropna_all_def channel_columns_def
      variables_used_def isna_def same_row_def)

lemma example_diffs: "diffs example_recording = [None, Some 900, Some 60, Some 60, Some 250]"
  by (simp add: diffs_def example_input) (simp add: example_recording_def dt_seconds_def)

lemma example_1min:
  "input_df_1min example_recording = [(960000000000, \<lambda>c. Num 3), (87420000000000, \<lambda>c. Num 4)]"
  by (simp add: input_df_1min_def high_freq_mask_def example_diffs example_input boolean_index_def)
     (simp add: example_recording_def)

lemma example_15min:
  "input_df_15min example_recording = [(900000000000, \<lambda>c. if c = ''ME RPM'' then NaN else Num 2)]"
  by (simp add: input_df_15min_def low_freq_mask_def example_diffs example_input boolean_index_def)
     (simp add: example_recording_def)

lemma example_resampled:
  "min1_resampled (\<lambda>n. 0) example_recording = [(900000000000, \<lambda>c. Num 3), (87300000000000, \<lambda>c. Num 4)]"
  by (simp add: min1_resampled_def example_1min bucket_of_def dropna_all_def channel_columns_def
      variables_used_def isna_def)

lemma example_concatenated:
  "concatenated (\<lambda>n. 0) example_recording =
     [(900000000000, \<lambda>c. if c = ''ME RPM'' then NaN else Num 2),
      (900000000000, \<lambda>c. Num 3), (87300000000000, \<lambda>c. Num 4)]"
  by (simp add: concatenated_def example_15min example_resampled)

lemma example_run:
  "data_preprocessor (\<lambda>n. 0) example_recording =
     Inr \<lparr>columns = channel_columns,
          body = [(900000000000, \<lambda>c. Num 3), (87300000000000, \<lambda>c. Num 4)]\<rparr>"
proof -
  have "filter (\<lambda>c. c \<notin> set (columns example_recording)) channel_columns = []"
    by (simp add: example_recording_def filter_empty_conv)
  then show ?thesis
    by (simp add: data_preprocessor_def example_concatenated dropna_any_def isna_def)
qed

text \<open>
  C3, as the code has it. \<open>dropna(subset=['ME F.O. IN TEMP.', 'ME RPM'])\<close> runs with the
  default \<open>how='any'\<close>: a row of the concatenated table stays in the output exactly when
  it has both the reference temperature and the RPM reading; a row missing either one is
  dropped.
\<close>

theorem dropna_keeps_rows_with_both_readings:
  assumes "data_preprocessor pick df = Inr out" and "x \<in> set (concatenated pick df)"
  shows "x \<in> set (body out) \<longleftrightarrow> \<not> isna (snd x ''ME F.O. IN TEMP.'') \<and> \<not> isna (snd x ''ME RPM'')"
  using output_rows[OF assms(1)] assms(2) by simp

text \<open>
  On the example recording the resampled row of 87300 s has both readings and stays.
\<close>

theorem dropna_keeps_rows_with_both_readings_witness:
  "data_preprocessor (\<lambda>n. 0) example_recording =
     Inr \<lparr>columns = channel_columns,
          body = [(900000000000, \<lambda>c. Num 3), (87300000000000, \<lambda>c. Num 4)]\<rparr>
   \<and> (87300000000000, \<lambda>c. Num 4) \<in> set (concatenated (\<lambda>n. 0) example_recording)
   \<and> (87300000000000, \<lambda>c. Num 4) \<in> set (body \<lparr>columns = channel_columns,
          body = [(900000000000, \<lambda>c. Num 3), (87300000000000, \<lambda>c. Num 4)]\<rparr>)
   \<and> \<not> isna (Num 4)"
proof -
  have m: "(87300000000000, \<lambda>c. Num 4) \<in> set (concatenated (\<lambda>n. 0) example_recording)"
    by (simp add: example_concatenated)
  from dropna_keeps_rows_with_both_readings[OF example_run m] example_run m show ?thesis
    by (simp add: isna_def)
qed

text \<open>
  C3 as stated fails: the concatenated table of the example recording holds a row with a
  reference temperature and no RPM reading (missing only one of the two), and the output
  does not hold it.
\<close>

theorem dropna_drops_row_missing_only_rpm:
  "map (\<lambda>(t, r). (t, r ''ME F.O. IN TEMP.'', r ''ME RPM'')) (concatenated (\<lambda>n. 0) example_recording)
     = [(900000000000, Num 2, NaN), (900000000000, Num 3, Num 3), (87300000000000, Num 4, Num 4)]
   \<and> (case data_preprocessor (\<lambda>n. 0) example_recording of
         Inl e \<Rightarrow> []
       | Inr out \<Rightarrow> map (\<lambda>(t, r). (t, r ''ME F.O. IN TEMP.'', r ''ME RPM'')) (body out))
     = [(900000000000, Num 3, Num 3), (87300000000000, Num 4, Num 4)]"
  by (simp add: example_concatenated example_run)

text \<open>
  C4 at a concrete recording: row 3 follows row 2 after 86460 s (one day and one minute),
  far more than 250 s, yet \<open>.dt.seconds\<close> reads 60, the row is put in the high-frequency
  partition and not in the low-frequency one.
\<close>

theorem seconds_field_misclassifies_long_gap:
  "fst (input_df example_recording ! 2) = Some 960000000000
   \<and> fst (input_df example_recording ! 3) = Some (960000000000 + 86460 * 1000000000)
   \<and> diffs example_recording ! 3 = Some 60
   \<and> high_freq_mask example_recording ! 3
   \<and> \<not> low_freq_mask example_recording ! 3
   \<and> input_df_1min example_recording = [(960000000000, \<lambda>c. Num 3), (87420000000000, \<lambda>c. Num 4)]
   \<and> input_df_15min example_recording = [(900000000000, \<lambda>c. if c = ''ME RPM'' then NaN else Num 2)]"
proof -
  have a: "fst (input_df example_recording ! 2) = Some 960000000000"
    by (simp add: example_input) (simp add: example_recording_def)
  have b: "fst (input_df example_recording ! 3) = Some (960000000000 + 86460 * 1000000000)"
    by (simp add: example_input) (simp add: example_recording_def)
  have c: "diffs example_recording ! 3 = Some 60" by (simp add: example_diffs)
  have d: "high_freq_mask example_recording ! 3 \<and> \<not> low_freq_mask example_recording ! 3"
    by (simp add: high_freq_mask_def low_freq_mask_def example_diffs)
  from a b c d example_1min example_15min show ?thesis by blast
qed

text \<open>
  C10. The first row of the table, and every row that follows its predecessor after
  exactly 250 s, is in neither partition; and every row of the output has the cells of
  a row that one of the two masks selects, so the rows in neither partition do not reach
  the output.
\<close>

theorem cadence_partition_not_exhaustive:
  assumes "k < length (input_df df)"
    and "k = 0 \<or> (\<exists>t. fst (input_df df ! (k - 1)) = Some t \<and> fst (input_df df ! k) = Some (t + 250000000000))"
  shows "\<not> high_freq_mask df ! k \<and> \<not> low_freq_mask df ! k
       \<and> (\<forall>out i r. data_preprocessor pick df = Inr out \<and> (i, r) \<in> set (body out) \<longrightarrow>
            (\<exists>j < length (input_df df). (high_freq_mask df ! j \<or> low_freq_mask df ! j) \<and> r = snd (input_df df ! j)))"
proof -
  have k': "k < length (map fst (input_df df))" using assms(1) by simp
  have d: "diffs df ! k = diff_seconds (if k = 0 then None else fst (input_df df ! (k - 1))) (fst (input_df df ! k))"
    unfolding diffs_def diffs_from_nth[OF k'] using assms(1) by (auto simp: nth_map)
  have "diffs df ! k = None \<or> diffs df ! k = Some 250"
    using assms(2) unfolding d by (auto simp: dt_seconds_def)
  then have masks: "\<not> high_freq_mask df ! k \<and> \<not> low_freq_mask df ! k"
    using assms(1) by (auto simp: high_freq_mask_def low_freq_mask_def diffs_length)
  have prov: "\<exists>j < length (input_df df). (high_freq_mask df ! j \<or> low_freq_mask df ! j) \<and> r = snd (input_df df ! j)"
    if run: "data_preprocessor pick df = Inr out" and mem: "(i, r) \<in> set (body out)" for out i r
  proof -
    from mem output_rows[OF run] have "(i, r) \<in> set (concatenated pick df)" by simp
    then consider "(i, r) \<in> set (input_df_15min df)" | "(i, r) \<in> set (min1_resampled pick df)"
      by (auto simp: concatenated_def)
    then show ?thesis
    proof cases
      case 1
      from partition_15min_source[OF 1] show ?thesis by blast
    next
      case 2
      from resampled_source[OF 2] obtain t where "(t, r) \<in> set (input_df_1min df)" by blast
      from partition_1min_source[OF this] show ?thesis by blast
    qed
  qed
  from masks prov show ?thesis by blast
qed

text \<open>
  Row 4 of the example recording follows row 3 after exactly 250 s.
\<close>

theorem cadence_partition_not_exhaustive_witness:
  "4 < length (input_df example_recording)
   \<and> fst (input_df example_recording ! (4 - 1)) = Some 87420000000000
   \<and> fst (input_df example_recording ! 4) = Some (87420000000000 + 250000000000)
   \<and> \<not> high_freq_mask example_recording ! 4 \<and> \<not> low_freq_mask example_recording ! 4"
proof -
  have len: "4 < length (input_df example_recording)"
    by (simp add: example_input) (simp add: example_recording_def)
  have p: "fst (input_df example_recording ! (4 - 1)) = Some 87420000000000"
    by (simp add: example_input) (simp add: example_recording_def)
  have c: "fst (input_df example_recording ! 4) = Some (87420000000000 + 250000000000)"
    by (simp add: example_input) (simp add: example_recording_def)
  from p c have h: "4 = (0::nat) \<or> (\<exists>t. fst (input_df example_recording ! (4 - 1)) = Some t
       \<and> fst (input_df example_recording ! 4) = Some (t + 250000000000))"
    by blast
  from cadence_partition_not_exhaustive[OF len h] len p c show ?thesis by blast
qed

section \<open>Steady-state segmentation: properties\<close>

lemma windows_of_constant:
  assumes "1 \<le> L" "L \<le> T"
  shows "windows_of (replicate T v) L 1 = Inr (replicate (T + 1 - L) (replicate L v))"
proof -
  have w: "take L (drop start (replicate T v)) = replicate L v" if "start \<in> set [0..<T + 1 - L]" for start
    using that assms by (simp add: min_def)
  have "map (\<lambda>start. take L (drop start (replicate T v))) [0..<T + 1 - L]
        = map (\<lambda>start. replicate L v) [0..<T + 1 - L]"
    using w by (intro map_cong) auto
  also have "\<dots> = replicate (T + 1 - L) (replicate L v)"
    by (simp add: map_replicate_const)
  finally show ?thesis by (simp add: windows_of_def)
qed

lemma label_windows_constant:
  assumes "fit_predict thr w = Inr states" "window_label states = Inr l"
  shows "label_windows fit_predict thr (replicate n w) = Inr (replicate n l)"
  using assms by (induction n) auto

lemma final_label_constant:
  assumes "1 \<le> L" "L \<le> T" "t < T"
  shows "final_label (replicate (T + 1 - L) l) (T + 1 - L) L t = l"
proof -
  let ?i_min = "max 0 (int t - int L + 1)"
  let ?i_max = "min (int t) (int (T + 1 - L) - 1)"
  have le: "?i_min \<le> ?i_max" using assms by auto
  have each: "replicate (T + 1 - L) l ! nat i = l" if "i \<in> set [?i_min..?i_max]" for i
    using that assms by (intro nth_replicate) auto
  have "map (\<lambda>i. replicate (T + 1 - L) l ! nat i) [?i_min..?i_max] = map (\<lambda>i. l) [?i_min..?i_max]"
    using each by (intro map_cong) auto
  also have "\<dots> = replicate (length [?i_min..?i_max]) l" by (simp add: map_replicate_const)
  finally have lh: "map (\<lambda>i. replicate (T + 1 - L) l ! nat i) [?i_min..?i_max]
      = replicate (length [?i_min..?i_max]) l" .
  have pos: "0 < length [?i_min..?i_max]" using le assms by auto
  then obtain k where k: "length [?i_min..?i_max] = Suc k" by (cases "length [?i_min..?i_max]") auto
  have "final_label (replicate (T + 1 - L) l) (T + 1 - L) L t =
      (if replicate (Suc k) l \<noteq> [] \<and> list_all (\<lambda>x. x = hd (replicate (Suc k) l)) (replicate (Suc k) l)
       then hd (replicate (Suc k) l) else 0)"
    by (simp only: final_label_def Let_def lh k)
  also have "\<dots> = l" by (simp add: list_all_iff)
  finally show ?thesis .
qed

text \<open>
  C2. When the smoothed series is constant, at least one window long, the windows are
  taken with the stride 1 of the step and the clustering puts a constant window in a single
  cluster, then every window is that constant window, every window gets label 1, and the
  final label of every sample is 1.
\<close>

theorem flat_series_labelled_one:
  assumes "ewm_mean alpha series = replicate T v"
    and "1 \<le> L" and "L \<le> T"
    and "fit_predict distance_threshold (replicate L v) = Inr states"
    and "length (remdups states) = 1"
  shows "windows_of (ewm_mean alpha series) L 1 = Inr (replicate (T + 1 - L) (replicate L v))
       \<and> label_windows fit_predict distance_threshold (replicate (T + 1 - L) (replicate L v))
           = Inr (replicate (T + 1 - L) 1)
       \<and> steady_state_extraction_core ewm_mean fit_predict series distance_threshold alpha L 1
           = Inr (replicate T 1)"
proof -
  have wl: "window_label states = Inr 1" using assms(5) by (simp add: window_label_def)
  note w = windows_of_constant[OF assms(2,3), of v]
  note s = label_windows_constant[where fit_predict=fit_predict and thr=distance_threshold
      and w="replicate L v" and n="T + 1 - L", OF assms(4) wl]
  have "map (final_label (replicate (T + 1 - L) 1) (T + 1 - L) L) [0..<T] = map (\<lambda>t. 1) [0..<T]"
    using final_label_constant[OF assms(2,3)] by (intro map_cong) auto
  then have f: "map (final_label (replicate (T + 1 - L) 1) (T + 1 - L) L) [0..<T] = replicate T 1"
    by (simp add: map_replicate_const)
  show ?thesis
    unfolding steady_state_extraction_core_def Let_def assms(1)
    using w s f by simp
qed

text \<open>
  Five equal samples, windows of three: with the smoothing of weight 1 on the newest
  sample (the identity) and a clustering that returns one cluster, all five labels are 1.
\<close>

theorem flat_series_labelled_one_witness:
  "(1::nat) \<le> 3 \<and> (3::nat) \<le> 5
   \<and> length (remdups (replicate 3 (0::nat))) = 1
   \<and> steady_state_extraction_core (\<lambda>alpha series. series) (\<lambda>thr window. Inr (replicate (length window) 0))
        (replicate 5 (Num 4000)) 700 1 3 1 = Inr (replicate 5 1)"
proof -
  have h1: "(\<lambda>alpha series. series) (1::real) (replicate 5 (Num 4000)) = replicate 5 (Num 4000)" by simp
  have h2: "(1::nat) \<le> 3" and h3: "(3::nat) \<le> 5" by simp_all
  have h4: "(\<lambda>thr window. Inr (replicate (length window) 0)) (700::real) (replicate 3 (Num 4000))
             = (Inr (replicate 3 (0::nat)) :: py_error + nat list)" by simp
  have h5: "length (remdups (replicate 3 (0::nat))) = 1" by code_simp
  from flat_series_labelled_one[of "\<lambda>alpha series. series" 1 "replicate 5 (Num 4000)" 5 "Num 4000" 3
      "\<lambda>thr window. Inr (replicate (length window) 0)" 700 "replicate 3 0", OF h1 h2 h3 h4 h5] h2 h3 h5
  show ?thesis by blast
qed

lemma alternating_counts:
  "count_transitions 2 (alternating 0 1 n) [[p, q], [r, s]] = Inr [[p, q + n div 2], [r + (n - 1) div 2, s]]
   \<and> count_transitions 2 (alternating 1 0 n) [[p, q], [r, s]] = Inr [[p, q + (n - 1) div 2], [r + n div 2, s]]"
proof (induction n arbitrary: p q r s)
  case 0
  show ?case by simp
next
  case (Suc n)
  show ?case
  proof (cases n)
    case 0
    then show ?thesis by simp
  next
    case (Suc m)
    have a: "alternating 0 1 (Suc n) = 0 # alternating 1 0 n"
      and b: "alternating 1 0 (Suc n) = 1 # alternating 0 1 n" by simp_all
    have c: "alternating 1 0 n = 1 # alternating 0 1 m"
      and d: "alternating 0 1 n = 0 # alternating 1 0 m" using Suc by simp_all
    have s1: "count_transitions 2 (alternating 0 1 (Suc n)) [[p, q], [r, s]]
           = count_transitions 2 (alternating 1 0 n) [[p, q + 1], [r, s]]"
      unfolding Suc by simp
    have s2: "count_transitions 2 (alternating 1 0 (Suc n)) [[p, q], [r, s]]
           = count_transitions 2 (alternating 0 1 n) [[p, q], [r + 1, s]]"
      unfolding Suc by simp
    have e1: "q + 1 + (n - 1) div 2 = q + Suc n div 2" using Suc by simp
    have e2: "r + 1 + (n - 1) div 2 = r + Suc n div 2" using Suc by simp
    show ?thesis
      unfolding s1 s2 using Suc.IH[of p "q + 1" r s] Suc.IH[of p q "r + 1" s] e1 e2
      by simp
  qed
qed

lemma alternating_set:
  "2 \<le> n \<Longrightarrow> set (alternating a b n) = {a, b}"
proof (induction n arbitrary: a b)
  case 0
  then show ?case by simp
next
  case (Suc n)
  show ?case
  proof (cases "2 \<le> n")
    case True
    from Suc.IH[OF this, of b a] show ?thesis by auto
  next
    case False
    with Suc.prems have "n = 1" by simp
    then show ?thesis by simp
  qed
qed

lemma alternating_clusters:
  assumes "2 \<le> n" "a \<noteq> b"
  shows "length (remdups (alternating a b n)) = 2"
  using alternating_set[OF assms(1), of a b] assms(2)
  by (simp add: length_remdups_card_conv)

lemma components_of_swap: "connectedComponents [[0, 1], [1, 0]] 4 = (3, [[0, 1], [2, 0]])"
  by code_simp

lemma components_of_swap_8: "connectedComponents [[0, 1], [1, 0]] 8 = (2, [[0, 1], [1, 0]])"
  by code_simp

lemma counts_of_swap: "bincount_tail (concat [[0, 1], [2, 0]]) = [1, 1]"
  by code_simp

lemma analyse_off_diagonal:
  assumes "count_transitions 2 states [[0, 0], [0, 0]] = Inr [[0, x], [y, 0]]"
    and "length (remdups states) = 2" and "0 < x" and "0 < y"
  shows "analyse_window states =
     Inr \<lparr>wa_C = [[0, x], [y, 0]], wa_P = [[0, 1], [1, 0]], wa_B = [[0, 1], [1, 0]],
          wa_num_labels = 3, wa_labels_img = [[0, 1], [2, 0]], wa_counts = [1, 1],
          wa_main_label = 1\<rparr>"
proof -
  have z: "replicate 2 (replicate 2 (0::nat)) = [[0, 0], [0, 0]]"
    by (simp add: numeral_2_eq_2)
  have P: "row_normalize [[0, x], [y, 0]] = [[0, 1], [1, 0]]"
    using assms(3,4) by (simp add: row_normalize_def)
  have B: "binarize [[0, 1], [1, 0]] = [[0, 1], [1, 0]]"
    by (simp add: binarize_def)
  show ?thesis
    unfolding analyse_window_def assms(2) Let_def z assms(1) sum.case P B components_of_swap
      prod.case counts_of_swap
    by simp
qed

text \<open>
  C1, as the code has it. For a window of at least three samples that alternates between
  the two cluster ids, the transition counts are zero on the diagonal and positive off it,
  the binarized matrix is the 2 by 2 matrix with zero diagonal and ones off it; its two
  non-zero pixels touch only at a corner, so with connectivity 4 they are two components
  of one pixel each (three labels with the background), and the window's label is 1, the
  first of the two equally large components.
\<close>

theorem alternating_window_components:
  assumes "3 \<le> n" and "(a, b) = (0, 1) \<or> (a, b) = (1, 0)"
  shows "\<exists>w. analyse_window (alternating a b n) = Inr w
     \<and> wa_C w ! 0 ! 0 = 0 \<and> wa_C w ! 1 ! 1 = 0 \<and> 0 < wa_C w ! 0 ! 1 \<and> 0 < wa_C w ! 1 ! 0
     \<and> wa_B w = [[0, 1], [1, 0]]
     \<and> wa_num_labels w = 3 \<and> wa_labels_img w = [[0, 1], [2, 0]]
     \<and> wa_counts w = [1, 1] \<and> wa_main_label w = 1
     \<and> window_label (alternating a b n) = Inr 1"
proof -
  from assms(2) have ab: "a \<noteq> b" by auto
  have r: "length (remdups (alternating a b n)) = 2"
    using alternating_clusters[of n a b] assms(1) ab by simp
  from assms(1) have x: "0 < n div 2" and y: "0 < (n - 1) div 2" by auto
  from assms(2) obtain x' y' where c: "count_transitions 2 (alternating a b n) [[0, 0], [0, 0]] = Inr [[0, x'], [y', 0]]"
    and pos: "0 < x'" "0 < y'"
    using alternating_counts[of n 0 0 0 0] x y by auto
  note w = analyse_off_diagonal[OF c r pos]
  have l: "window_label (alternating a b n) = Inr 1"
    by (simp add: window_label_def r w)
  show ?thesis
    using w l pos by simp
qed

text \<open>
  The window 1, 0, 1, 0, 1.
\<close>

theorem alternating_window_components_witness:
  "(3::nat) \<le> 5 \<and> alternating 1 0 5 = [1, 0, 1, 0, 1]
   \<and> (\<exists>w. analyse_window [1, 0, 1, 0, 1] = Inr w
         \<and> wa_B w = [[0, 1], [1, 0]] \<and> wa_labels_img w = [[0, 1], [2, 0]]
         \<and> wa_counts w = [1, 1] \<and> wa_main_label w = 1)
   \<and> window_label [1, 0, 1, 0, 1] = Inr 1"
proof -
  have a: "alternating 1 0 5 = [1, 0, 1, 0, 1]" by code_simp
  have h1: "(3::nat) \<le> 5" by simp
  have h2: "(1::nat, 0::nat) = (0, 1) \<or> (1::nat, 0::nat) = (1, 0)" by simp
  from alternating_window_components[OF h1 h2] show ?thesis
    unfolding a by auto
qed

text \<open>
  C1 as stated fails at the window 0, 1, 0, 1: the pixel of the transition from 0 to 1 gets
  component 1 and the pixel of the transition from 1 to 0 gets component 2. Only with
  connectivity 8 would the two be one component.
\<close>

theorem alternating_pixels_in_different_components:
  "analyse_window [0, 1, 0, 1] =
     Inr \<lparr>wa_C = [[0, 2], [1, 0]], wa_P = [[0, 1], [1, 0]], wa_B = [[0, 1], [1, 0]],
          wa_num_labels = 3, wa_labels_img = [[0, 1], [2, 0]], wa_counts = [1, 1],
          wa_main_label = 1\<rparr>
   \<and> connectedComponents [[0, 1], [1, 0]] 4 = (3, [[0, 1], [2, 0]])
   \<and> connectedComponents [[0, 1], [1, 0]] 8 = (2, [[0, 1], [1, 0]])"
proof -
  have c: "count_transitions 2 [0, 1, 0, 1] [[0, 0], [0, 0]] = Inr [[0, 2], [1, 0]]"
    by simp
  have r: "length (remdups [0::nat, 1, 0, 1]) = 2" by simp
  from analyse_off_diagonal[OF c r] components_of_swap components_of_swap_8 show ?thesis by simp
qed

section \<open>Outlier filtering: properties\<close>



















section \<open>Evaluation: properties\<close>

lemma argmax_from_spec:
  assumes "bi < length ys" and "ys ! bi = best" and "\<forall>j < length ys. ys ! j \<le> best"
  shows "argmax_from best bi (length ys) xs < length (ys @ xs)
       \<and> (\<forall>j < length (ys @ xs). (ys @ xs) ! j \<le> (ys @ xs) ! argmax_from best bi (length ys) xs)"
  using assms
proof (induction xs arbitrary: ys best bi)
  case Nil
  then show ?case by simp
next
  case (Cons x xs)
  show ?case
  proof (cases "best < x")
    case True
    have a: "length ys < length (ys @ [x])" by simp
    have b: "(ys @ [x]) ! length ys = x" by simp
    have c: "\<forall>j < length (ys @ [x]). (ys @ [x]) ! j \<le> x"
      using Cons.prems(3) True by (auto simp: nth_append less_Suc_eq)
    from Cons.IH[OF a b c] True show ?thesis by simp
  next
    case False
    have a: "bi < length (ys @ [x])" using Cons.prems(1) by simp
    have b: "(ys @ [x]) ! bi = best" using Cons.prems(1,2) by (simp add: nth_append)
    have c: "\<forall>j < length (ys @ [x]). (ys @ [x]) ! j \<le> best"
      using Cons.prems(3) False by (auto simp: nth_append less_Suc_eq)
    from Cons.IH[OF a b c] False show ?thesis by simp
  qed
qed

lemma argmax_spec:
  assumes "xs \<noteq> []"
  shows "argmax xs < length xs \<and> (\<forall>j < length xs. xs ! j \<le> xs ! argmax xs)"
proof -
  from assms obtain x rest where xs: "xs = x # rest" by (cases xs) auto
  have "argmax_from x 0 (length [x]) rest < length ([x] @ rest)
       \<and> (\<forall>j < length ([x] @ rest). ([x] @ rest) ! j \<le> ([x] @ rest) ! argmax_from x 0 (length [x]) rest)"
    by (rule argmax_from_spec) auto
  then show ?thesis by (simp add: xs)
qed

lemma curve_shape:
  assumes "precision_recall_curve y_true probas_pred = (precisions, recalls, thresholds)"
  shows "length precisions = Suc (length thresholds)"
    and "length recalls = Suc (length thresholds)"
    and "probas_pred \<noteq> [] \<Longrightarrow> thresholds \<noteq> []"
proof -
  from assms have t: "thresholds = sort (remdups probas_pred)"
    and p: "length precisions = Suc (length (sort (remdups probas_pred)))"
    and r: "length recalls = Suc (length (sort (remdups probas_pred)))"
    by (auto simp: precision_recall_curve_def Let_def)
  show "length precisions = Suc (length thresholds)" using p t by simp
  show "length recalls = Suc (length thresholds)" using r t by simp
  show "thresholds \<noteq> []" if "probas_pred \<noteq> []"
  proof
    assume "thresholds = []"
    then have "set (sort (remdups probas_pred)) = {}" using t by simp
    then show False using that by simp
  qed
qed

text \<open>
  What the sweep does achieve on every test set with at least one row: it returns, the
  reported threshold is a candidate of the curve, and its F1 score on the curve, where a
  row is predicted anomalous when its error is greater than or equal to the threshold, is
  at least that of every candidate. The predictions it reports are taken with a strict
  comparison instead.
\<close>

lemma sweep_maximises_curve_f1:
  assumes "precision_recall_curve y_true reconstruction_error = (precisions, recalls, thresholds)"
    and "reconstruction_error \<noteq> []"
  shows "\<exists>bp. threshold_sweep y_true reconstruction_error = Inr bp
     \<and> best_idx bp < length thresholds
     \<and> best_threshold bp = thresholds ! best_idx bp
     \<and> best_f1 bp = f1_score (precisions ! best_idx bp) (recalls ! best_idx bp)
     \<and> (\<forall>i < length thresholds. f1_score (precisions ! i) (recalls ! i) \<le> best_f1 bp)
     \<and> y_pred_best bp = map (\<lambda>e. if e > best_threshold bp then 1 else 0) reconstruction_error"
proof -
  note shape = curve_shape[OF assms(1)]
  let ?f1 = "map (\<lambda>(p, r). f1_score p r) (zip (butlast precisions) (butlast recalls))"
  have len: "length ?f1 = length thresholds" using shape(1,2) by simp
  have nth: "?f1 ! i = f1_score (precisions ! i) (recalls ! i)" if "i < length thresholds" for i
    using that shape(1,2) by (simp add: nth_butlast)
  have ne: "?f1 \<noteq> []"
  proof
    assume "?f1 = []"
    then have "length ?f1 = 0" by (simp only: list.size)
    with len shape(3)[OF assms(2)] show False by simp
  qed
  from argmax_spec[OF ne] have idx: "argmax ?f1 < length thresholds"
    and mx: "\<forall>j < length thresholds. ?f1 ! j \<le> ?f1 ! argmax ?f1"
    unfolding len by auto
  let ?bp = "\<lparr>best_idx = argmax ?f1, best_threshold = thresholds ! argmax ?f1,
              best_f1 = ?f1 ! argmax ?f1, best_precision = precisions ! argmax ?f1,
              best_recall = recalls ! argmax ?f1,
              y_pred_best = map (\<lambda>e. if e > thresholds ! argmax ?f1 then 1 else 0) reconstruction_error\<rparr>"
  have run: "threshold_sweep y_true reconstruction_error = Inr ?bp"
    unfolding threshold_sweep_def assms(1) using shape(1,2) ne idx
    by (simp add: Let_def)
  have mx': "\<forall>i < length thresholds. f1_score (precisions ! i) (recalls ! i) \<le> best_f1 ?bp"
    using mx nth by simp
  have f: "best_f1 ?bp = f1_score (precisions ! best_idx ?bp) (recalls ! best_idx ?bp)"
    using nth[OF idx] by simp
  from run idx mx' f show ?thesis by (intro exI[of _ ?bp]) simp
qed






text \<open>
  C8, as the code has it. The column selection succeeds exactly when the annotation
  column is in the reference table and is not dropped, and every column of the training
  table is among the (renamed) columns of the anomaly rows, is not a dropped column and is
  not the annotation column; the features are then all the training columns, in training
  order. Columns that only the anomaly rows have are dropped silently; a training column
  that the anomaly rows lack makes the selection raise KeyError.
\<close>

theorem evaluation_columns_complete_iff:
  "evaluation_columns renaming test_columns final_df1_columns drop_cols anomaly_col = Inr cols
   \<longleftrightarrow>
     cols = final_df1_columns
   \<and> anomaly_col \<in> set test_columns
   \<and> anomaly_col \<notin> set (case drop_cols of None \<Rightarrow> default_drop_cols | Some d \<Rightarrow> d)
   \<and> set final_df1_columns \<subseteq> set (rename_columns renaming test_columns)
   \<and> set final_df1_columns \<inter> set (case drop_cols of None \<Rightarrow> default_drop_cols | Some d \<Rightarrow> d) = {}
   \<and> anomaly_col \<notin> set final_df1_columns"
proof -
  define D where "D = (case drop_cols of None \<Rightarrow> default_drop_cols | Some d \<Rightarrow> d)"
  define A where "A = rename_columns renaming test_columns"
  define common0 where "common0 = filter (\<lambda>c. c \<in> set final_df1_columns) (remdups A)"
  define common where "common =
    (if anomaly_col \<notin> set common0 \<and> anomaly_col \<in> set A then common0 @ [anomaly_col] else common0)"
  define normals where "normals = filter (\<lambda>c. c \<noteq> anomaly_col) common @ [anomaly_col]"
  define test_data0 where "test_data0 = common @ filter (\<lambda>c. c \<notin> set common) normals"
  define dropped where "dropped = filter (\<lambda>c. c \<in> set test_data0) D"
  define test_data where "test_data = filter (\<lambda>c. c \<notin> set dropped) test_data0"
  define X where "X = filter (\<lambda>c. c \<noteq> anomaly_col) test_data"
  have run: "evaluation_columns renaming test_columns final_df1_columns drop_cols anomaly_col =
      (if anomaly_col \<notin> set test_columns then Inl (KeyError anomaly_col)
       else if anomaly_col \<notin> set test_data then Inl (KeyError anomaly_col)
       else case filter (\<lambda>c. c \<notin> set X) final_df1_columns of
              c # cs \<Rightarrow> Inl (KeyError c) | [] \<Rightarrow> Inr final_df1_columns)"
    unfolding evaluation_columns_def Let_def X_def test_data_def dropped_def test_data0_def
      normals_def common_def common0_def A_def D_def ..
  have s0: "set common0 = set A \<inter> set final_df1_columns" by (auto simp: common0_def)
  have s1: "set common = set common0 \<union> (if anomaly_col \<in> set A then {anomaly_col} else {})"
    by (auto simp: common_def)
  have s2: "set test_data0 = set common \<union> {anomaly_col}"
    by (auto simp: test_data0_def normals_def)
  have s3: "set test_data = set test_data0 - set D"
    by (auto simp: test_data_def dropped_def)
  have s4: "set X = set test_data - {anomaly_col}" by (auto simp: X_def)
  have a_in: "anomaly_col \<in> set test_data \<longleftrightarrow> anomaly_col \<notin> set D"
    unfolding s3 s2 by auto
  have Xs: "set X = set A \<inter> set final_df1_columns - set D - {anomaly_col}"
    unfolding s4 s3 s2 s1 s0 by auto
  have sub: "filter (\<lambda>c. c \<notin> set X) final_df1_columns = [] \<longleftrightarrow>
       set final_df1_columns \<subseteq> set A \<and> set final_df1_columns \<inter> set D = {}
       \<and> anomaly_col \<notin> set final_df1_columns"
    unfolding filter_empty_conv Xs by auto
  show ?thesis
  proof (cases "anomaly_col \<in> set test_columns \<and> anomaly_col \<notin> set D")
    case False
    then show ?thesis unfolding run using a_in by (auto simp: D_def)
  next
    case True
    show ?thesis
    proof (cases "filter (\<lambda>c. c \<notin> set X) final_df1_columns")
      case Nil
      with sub True a_in show ?thesis unfolding run
        by (auto simp: D_def A_def)
    next
      case (Cons c cs)
      with sub True a_in show ?thesis unfolding run
        by (auto simp: D_def A_def)
    qed
  qed
qed

text \<open>
  A reference table with an extra column \<open>Remarks\<close>: the selection succeeds without it.
\<close>

theorem evaluation_columns_complete_iff_witness:
  "evaluation_columns variables_used [''Shaft_RPM'', ''Shaft_Power'', ''Remarks'', ''Anomaly Reason'']
      [''ME SHAFT POWER'', ''ME RPM''] None ''Anomaly Reason''
     = Inr [''ME SHAFT POWER'', ''ME RPM'']"
proof -
  have r: "rename_columns variables_used [''Shaft_RPM'', ''Shaft_Power'', ''Remarks'', ''Anomaly Reason'']
         = [''ME RPM'', ''ME SHAFT POWER'', ''Remarks'', ''Anomaly Reason'']"
    by code_simp
  have c: "[''ME SHAFT POWER'', ''ME RPM''] = [''ME SHAFT POWER'', ''ME RPM'']
     \<and> ''Anomaly Reason'' \<in> set [''Shaft_RPM'', ''Shaft_Power'', ''Remarks'', ''Anomaly Reason'']
     \<and> ''Anomaly Reason'' \<notin> set (case None of None \<Rightarrow> default_drop_cols | Some d \<Rightarrow> d)
     \<and> set [''ME SHAFT POWER'', ''ME RPM'']
          \<subseteq> set (rename_columns variables_used [''Shaft_RPM'', ''Shaft_Power'', ''Remarks'', ''Anomaly Reason''])
     \<and> set [''ME SHAFT POWER'', ''ME RPM''] \<inter> set (case None of None \<Rightarrow> default_drop_cols | Some d \<Rightarrow> d) = {}
     \<and> ''Anomaly Reason'' \<notin> set [''ME SHAFT POWER'', ''ME RPM'']"
    unfolding r by (simp add: default_drop_cols_def)
  from evaluation_columns_complete_iff[THEN iffD2, OF c] show ?thesis .
qed

text \<open>
  C8 as stated fails: the anomaly rows have \<open>ME RPM\<close> and \<open>Remarks\<close>, the normal rows
  \<open>ME RPM\<close> and \<open>ME SHAFT POWER\<close>; the column sets overlap in \<open>ME RPM\<close> only, and the
  evaluation does not continue on the intersection but raises KeyError.
\<close>

theorem missing_training_column_fails:
  "evaluation_columns variables_used [''Shaft_RPM'', ''Remarks'', ''Anomaly Reason'']
      [''ME RPM'', ''ME SHAFT POWER''] None ''Anomaly Reason''
     = Inl (KeyError ''ME SHAFT POWER'')
   \<and> filter (\<lambda>c. c \<in> set [''ME RPM'', ''ME SHAFT POWER''])
        (rename_columns variables_used [''Shaft_RPM'', ''Remarks'', ''Anomaly Reason'']) = [''ME RPM'']"
  by code_simp

end
